theory Spec2Isabelle
  imports Complex_Main
begin

section \<open>JavaScript strings\<close>

text \<open>
  A JavaScript string is a sequence of UTF-16 code units. The model keeps the code units
  0..255 (ASCII and the Latin-1 supplement): a \<^typ>\<open>char\<close> stands for the code unit of
  the same number. On this range \<^verbatim>\<open>toLowerCase\<close> moves A..Z and the
  capital letters 0xC0..0xDE (without the multiplication sign 0xD7) up by 32, and
  \<^verbatim>\<open>trim\<close> removes the white space and line terminators
  TAB, LF, VT, FF, CR, SP and NBSP from both ends.
\<close>

definition toLowerCase_char :: "char \<Rightarrow> char" where
  "toLowerCase_char c =
     (let n = (of_char c :: nat)
      in if (65 \<le> n \<and> n \<le> 90) \<or> (192 \<le> n \<and> n \<le> 222 \<and> n \<noteq> 215)
         then char_of (n + 32) else c)"

definition toLowerCase :: "string \<Rightarrow> string" where
  "toLowerCase s = map toLowerCase_char s"

definition isWhiteSpace :: "char \<Rightarrow> bool" where
  "isWhiteSpace c = ((of_char c :: nat) \<in> {9, 10, 11, 12, 13, 32, 160})"

definition trim :: "string \<Rightarrow> string" where
  "trim s = rev (dropWhile isWhiteSpace (rev (dropWhile isWhiteSpace s)))"

definition startsWith :: "string \<Rightarrow> string \<Rightarrow> bool" where
  "startsWith s p = (take (length p) s = p)"

text \<open>The truthiness of a nullable string: \<^verbatim>\<open>null\<close> and the empty string are falsy.\<close>

definition truthy :: "string option \<Rightarrow> bool" where
  "truthy v = (case v of None \<Rightarrow> False | Some s \<Rightarrow> s \<noteq> [])"

text \<open>\<^verbatim>\<open>v || ""\<close> on a nullable string.\<close>

definition or_empty :: "string option \<Rightarrow> string" where
  "or_empty v = (case v of None \<Rightarrow> [] | Some s \<Rightarrow> s)"

section \<open>Rows of the store\<close>

text \<open>
  Session ids and user ids are the store's uuids; the model uses natural numbers.
  Timestamps are milliseconds on one clock. A row of \<^verbatim>\<open>listings\<close> keeps the
  columns the processing function reads (its \<^verbatim>\<open>Listing\<close> interface) and the
  session it belongs to; the other scraped columns are copied along by the store and no claim
  reads them. A row of \<^verbatim>\<open>processed_listings\<close> extends it by the three flags.
\<close>

type_synonym sid = nat
type_synonym uid = nat
type_synonym time = int

record listing =
  session_id :: sid
  name :: string
  rating :: "rat option"
  website :: "string option"
  address :: "string option"
  phone :: "string option"

record processed_listing = listing +
  is_website_verified :: bool
  website_status_code :: nat
  is_duplicate :: bool

record scraping_session =
  user_id :: "uid option"
  business_type :: string
  location :: string
  search_query :: "string option"
  status :: string
  total_records :: int
  processing_status :: string
  completed_at :: "time option"

record search_cache_row =
  c_user_id :: uid
  c_search_query :: string
  c_business_type :: string
  c_location :: string
  c_session_id :: sid
  result_count :: int
  cached_at :: time
  expires_at :: time

text \<open>
  The store: the four tables, and two logs of what left the program: the calls of the
  \<^verbatim>\<open>process-listings\<close> function and the calls of the progress callback.
  Tables without a primary-key lookup are lists in insertion order; a select without
  \<^verbatim>\<open>ORDER BY\<close> returns the matching rows in that order.
\<close>

record world =
  sessions :: "sid \<rightharpoonup> scraping_session"
  listings :: "listing list"
  processed_listings :: "processed_listing list"
  search_cache :: "search_cache_row list"
  engine_calls :: "sid list"
  progress :: "listing list"

section \<open>The process-listings function (dedup and website verification)\<close>

text \<open>
  The request the loop sends for a candidate, with the options of the source:
  method HEAD, redirect follow, and an abort signal fired by a timer of 5000 ms.
\<close>

record head_request =
  url :: string
  http_method :: string
  redirect :: string
  timeout_ms :: nat

text \<open>
  What \<^verbatim>\<open>fetch\<close> does with it: it resolves with a status code, or it throws
  (network error, or the abort at the deadline). The network is a parameter:
  \<open>net k r\<close> answers request \<open>r\<close> when \<open>k\<close> requests have been sent before it.
\<close>

datatype head_response = Status nat | Thrown string

type_synonym network = "nat \<Rightarrow> head_request \<Rightarrow> head_response"

record loop_state =
  seenCompanies :: "string \<rightharpoonup> bool"
  processedListings :: "processed_listing list"
  requests :: "head_request list"

definition companyKey :: "'a listing_scheme \<Rightarrow> string" where
  "companyKey l =
     (let normalizedName = trim (toLowerCase (name l));
          normalizedAddress = trim (toLowerCase (or_empty (address l)))
      in normalizedName @ ''|'' @ normalizedAddress)"

definition isDuplicate :: "loop_state \<Rightarrow> 'a listing_scheme \<Rightarrow> bool" where
  "isDuplicate st l = (seenCompanies st (companyKey l) \<noteq> None)"

definition websiteUrl :: "string \<Rightarrow> string" where
  "websiteUrl w = (if startsWith w ''http'' then w else ''https://'' @ w)"

definition head_of :: "string \<Rightarrow> head_request" where
  "head_of w = \<lparr>url = websiteUrl w, http_method = ''HEAD'', redirect = ''follow'', timeout_ms = 5000\<rparr>"

text \<open>
  \<^verbatim>\<open>fetch\<close> first parses its argument as an absolute URL. The function runs without a
  base URL, so a string without a scheme (a letter followed by letters, digits, plus, minus
  or dot, up to the first colon) is refused with a TypeError and nothing is sent. Any other
  request goes to the network and is logged.
\<close>

definition scheme_char :: "char \<Rightarrow> bool" where
  "scheme_char c =
     (let n = (of_char c :: nat)
      in (65 \<le> n \<and> n \<le> 90) \<or> (97 \<le> n \<and> n \<le> 122) \<or> (48 \<le> n \<and> n \<le> 57) \<or> n \<in> {43, 45, 46})"

definition has_scheme :: "string \<Rightarrow> bool" where
  "has_scheme w =
     (let p = takeWhile (\<lambda>c. c \<noteq> CHR '':'') w
      in length p < length w \<and> p \<noteq> [] \<and> list_all scheme_char p \<and>
         \<not> (48 \<le> (of_char (hd p) :: nat) \<and> (of_char (hd p) :: nat) \<le> 57) \<and>
         (of_char (hd p) :: nat) \<notin> {43, 45, 46})"

definition fetch_head ::
  "network \<Rightarrow> head_request list \<Rightarrow> head_request \<Rightarrow> head_response \<times> head_request list" where
  "fetch_head net reqs r =
     (if has_scheme (url r) then (net (length reqs) r, reqs @ [r])
      else (Thrown ''Invalid URL'', reqs))"

text \<open>
  The verification block of one iteration (the \<^verbatim>\<open>if (listing.website && !isDuplicate)\<close>
  with its try/catch). It returns \<open>isWebsiteVerified\<close>, \<open>websiteStatusCode\<close> and the
  requests sent so far.
\<close>

definition verifyWebsite ::
  "network \<Rightarrow> head_request list \<Rightarrow> 'a listing_scheme \<Rightarrow> bool \<Rightarrow> bool \<times> nat \<times> head_request list" where
  "verifyWebsite net reqs l dup =
     (if truthy (website l) \<and> \<not> dup then
        (let answer = fetch_head net reqs (head_of (or_empty (website l))) in
         case fst answer of
           Status c \<Rightarrow> (200 \<le> c \<and> c < 400, c, snd answer)
         | Thrown msg \<Rightarrow> (False, 0, snd answer))
      else (False, 0, reqs))"

definition processed_row :: "sid \<Rightarrow> 'a listing_scheme \<Rightarrow> bool \<Rightarrow> nat \<Rightarrow> processed_listing" where
  "processed_row sessionId l verified code =
     \<lparr>session_id = sessionId, name = name l, rating = rating l, website = website l,
      address = address l, phone = phone l,
      is_website_verified = verified, website_status_code = code, is_duplicate = False\<rparr>"

text \<open>The body of \<^verbatim>\<open>for (const listing of listings)\<close>.\<close>

definition process_one :: "network \<Rightarrow> sid \<Rightarrow> loop_state \<Rightarrow> 'a listing_scheme \<Rightarrow> loop_state" where
  "process_one net sessionId st l =
     (let dup = isDuplicate st l;
          seen = (if \<not> dup then (seenCompanies st)(companyKey l \<mapsto> True) else seenCompanies st);
          (verified, code, reqs) = verifyWebsite net (requests st) l dup
      in \<lparr>seenCompanies = seen,
          processedListings =
            (if \<not> dup \<and> verified
             then processedListings st @ [processed_row sessionId l verified code]
             else processedListings st),
          requests = reqs\<rparr>)"

definition loop_init :: loop_state where
  "loop_init = \<lparr>seenCompanies = Map.empty, processedListings = [], requests = []\<rparr>"

definition process_loop :: "network \<Rightarrow> sid \<Rightarrow> 'a listing_scheme list \<Rightarrow> loop_state" where
  "process_loop net sessionId ls = foldl (process_one net sessionId) loop_init ls"

text \<open>
  The request, the answers of the function, and what the store says to its three calls:
  the select of the session's listings, the batch insert, and the final update.
  The function does not look at the method except for OPTIONS; \<open>POST\<close> carries what
  \<^verbatim>\<open>req.json()\<close> gives, the message of its exception or the session id of the body.
  The final update of \<^verbatim>\<open>processing_status\<close> is awaited and its result is not
  inspected: when the store refuses it, the row stays as it was and the function still
  answers with the summary. The function is taken as deployed, with the store's URL and key
  in its environment.
\<close>

datatype http_request = OPTIONS | POST "string + sid"

datatype http_response =
    Preflight
  | NoListings
  | Summary int int int
  | Failure string

record store_answers =
  fetchError :: "string option"
  insertError :: "processed_listing list \<Rightarrow> string option"
  updateError :: "string option"

text \<open>The catch block: status 500 with \<^verbatim>\<open>error.message || "Failed to process listings"\<close>.\<close>

definition failure :: "string \<Rightarrow> http_response" where
  "failure message = Failure (if message = [] then ''Failed to process listings'' else message)"

definition mark_processed :: "sid \<Rightarrow> world \<Rightarrow> world" where
  "mark_processed sessionId w =
     (case sessions w sessionId of
        None \<Rightarrow> w
      | Some s \<Rightarrow> w\<lparr>sessions := (sessions w)(sessionId \<mapsto> s\<lparr>processing_status := ''completed''\<rparr>)\<rparr>)"

definition process_listings ::
  "network \<Rightarrow> store_answers \<Rightarrow> http_request \<Rightarrow> world \<Rightarrow> http_response \<times> world" where
  "process_listings net db req w =
     (case req of
        OPTIONS \<Rightarrow> (Preflight, w)
      | POST (Inl e) \<Rightarrow> (failure e, w)
      | POST (Inr sessionId) \<Rightarrow>
          (case fetchError db of
             Some e \<Rightarrow> (failure e, w)
           | None \<Rightarrow>
               (let ls = filter (\<lambda>l. session_id l = sessionId) (listings w) in
                if ls = [] then (NoListings, w)
                else
                  (let batch = processedListings (process_loop net sessionId ls) in
                   case (if batch \<noteq> [] then insertError db batch else None) of
                     Some e \<Rightarrow> (failure e, w)
                   | None \<Rightarrow>
                       (Summary (int (length batch)) (int (length ls))
                                (int (length ls) - int (length batch)),
                        (let w1 = w\<lparr>processed_listings := processed_listings w @ batch\<rparr>
                         in case updateError db of
                              None \<Rightarrow> mark_processed sessionId w1
                            | Some e \<Rightarrow> w1))))))"

text \<open>
  Vocabulary for the statements: the loop state at the start of iteration \<open>i\<close>, the
  two readings of a response that the source takes (\<^verbatim>\<open>response.status\<close> and
  \<^verbatim>\<open>response.status >= 200 && response.status < 400\<close>), whether listing \<open>i\<close> is
  the first with its key, and what \<^verbatim>\<open>fetch\<close> answers for the website of listing
  \<open>i\<close> at its iteration.
\<close>

definition state_before :: "network \<Rightarrow> sid \<Rightarrow> 'a listing_scheme list \<Rightarrow> nat \<Rightarrow> loop_state" where
  "state_before net sessionId ls i = process_loop net sessionId (take i ls)"

definition live_status :: "head_response \<Rightarrow> bool" where
  "live_status r = (case r of Status c \<Rightarrow> 200 \<le> c \<and> c < 400 | Thrown msg \<Rightarrow> False)"

definition status_of :: "head_response \<Rightarrow> nat" where
  "status_of r = (case r of Status c \<Rightarrow> c | Thrown msg \<Rightarrow> 0)"

definition first_occurrence :: "'a listing_scheme list \<Rightarrow> nat \<Rightarrow> bool" where
  "first_occurrence ls i = list_all (\<lambda>j. companyKey (ls ! j) \<noteq> companyKey (ls ! i)) [0..<i]"

definition answer_at :: "network \<Rightarrow> sid \<Rightarrow> 'a listing_scheme list \<Rightarrow> nat \<Rightarrow> head_response" where
  "answer_at net sessionId ls i =
     fst (fetch_head net (requests (state_before net sessionId ls i))
            (head_of (or_empty (website (ls ! i)))))"

definition is_summary :: "http_response \<Rightarrow> bool" where
  "is_summary r = (case r of Summary p t d \<Rightarrow> True | _ \<Rightarrow> False)"

definition is_failure :: "http_response \<Rightarrow> bool" where
  "is_failure r = (case r of Failure e \<Rightarrow> True | _ \<Rightarrow> False)"

definition session_listings :: "sid \<Rightarrow> world \<Rightarrow> listing list" where
  "session_listings sessionId w = filter (\<lambda>l. session_id l = sessionId) (listings w)"

section \<open>The scraper service (class GoogleMapsScraper)\<close>

text \<open>
  The fields of the object. \<open>abortController\<close> is \<open>None\<close> for \<^verbatim>\<open>null\<close> and
  \<open>Some b\<close> for a controller whose \<^verbatim>\<open>signal.aborted\<close> is \<open>b\<close>.
\<close>

record scraper =
  sessionId :: "sid option"
  isRunning :: bool
  isPaused :: bool
  abortController :: "bool option"
  userId :: "uid option"

definition new_scraper :: scraper where
  "new_scraper = \<lparr>sessionId = None, isRunning = False, isPaused = False,
                   abortController = None, userId = None\<rparr>"

text \<open>\<^verbatim>\<open>this.abortController?.signal.aborted\<close>: undefined, hence falsy, without a controller.\<close>

definition aborted :: "scraper \<Rightarrow> bool" where
  "aborted sc = (case abortController sc of None \<Rightarrow> False | Some b \<Rightarrow> b)"

definition searchQuery :: "string \<Rightarrow> string \<Rightarrow> string" where
  "searchQuery businessType loc = trim (toLowerCase businessType) @ ''|'' @ trim (toLowerCase loc)"

text \<open>
  The store's client. \<^verbatim>\<open>maybeSingle\<close> answers no row with \<^verbatim>\<open>null\<close>, one row
  with the row, and more than one row with an error. The select policy of
  \<^verbatim>\<open>search_cache\<close> (the last migration) shows a row to the user who owns the
  session the row points to. The scraper's queries on its own session, listings and cache
  entry are the owner's and pass their policies; the model applies no policy to them.
\<close>

definition maybeSingle :: "'a list \<Rightarrow> string + 'a option" where
  "maybeSingle rows =
     (case rows of [] \<Rightarrow> Inr None | [r] \<Rightarrow> Inr (Some r) | r # r' # rs \<Rightarrow> Inl ''PGRST116'')"

definition cache_visible :: "world \<Rightarrow> uid \<Rightarrow> search_cache_row \<Rightarrow> bool" where
  "cache_visible w auth r =
     (case sessions w (c_session_id r) of None \<Rightarrow> False | Some s \<Rightarrow> user_id s = Some auth)"

definition cache_match :: "world \<Rightarrow> uid \<Rightarrow> string \<Rightarrow> time \<Rightarrow> search_cache_row \<Rightarrow> bool" where
  "cache_match w auth q now r = (cache_visible w auth r \<and> c_search_query r = q \<and> expires_at r > now)"

text \<open>
  \<open>checkCache\<close>, for the signed-in user \<open>auth\<close> at time \<open>now\<close>; \<open>selectError\<close> is an
  error of the store itself, if any.
\<close>

definition checkCache ::
  "world \<Rightarrow> uid \<Rightarrow> string option \<Rightarrow> time \<Rightarrow> string \<Rightarrow> string \<Rightarrow> sid option" where
  "checkCache w auth selectError now businessType loc =
     (let q = searchQuery businessType loc;
          answer = (case selectError of
                      Some e \<Rightarrow> Inl e
                    | None \<Rightarrow> maybeSingle (filter (cache_match w auth q now) (search_cache w)))
      in case answer of
           Inl e \<Rightarrow> None
         | Inr None \<Rightarrow> None
         | Inr (Some d) \<Rightarrow> Some (c_session_id d))"

text \<open>
  \<open>startSession\<close>. The store answers the insert with an error or with the primary key it
  generated; a key already in the table is a constraint violation.
\<close>

definition new_session :: "string \<Rightarrow> string \<Rightarrow> uid \<Rightarrow> scraping_session" where
  "new_session businessType loc u =
     \<lparr>user_id = Some u, business_type = businessType, location = loc,
      search_query = Some (searchQuery businessType loc), status = ''running'',
      total_records = 0, processing_status = ''pending'', completed_at = None\<rparr>"

definition startSession ::
  "scraper \<Rightarrow> world \<Rightarrow> string \<Rightarrow> string \<Rightarrow> uid \<Rightarrow> string + sid \<Rightarrow> (string + sid) \<times> scraper \<times> world" where
  "startSession sc w businessType loc u answer =
     (let sc1 = sc\<lparr>userId := Some u\<rparr> in
      case answer of
        Inl e \<Rightarrow> (Inl e, sc1, w)
      | Inr i \<Rightarrow>
          if sessions w i \<noteq> None then (Inl ''duplicate key'', sc1, w)
          else (Inr i,
                sc1\<lparr>sessionId := Some i, isRunning := True, isPaused := False,
                    abortController := Some False\<rparr>,
                w\<lparr>sessions := (sessions w)(i \<mapsto> new_session businessType loc u)\<rparr>))"

text \<open>
  An update of one session row. The client's query builder is lazy: the request is sent by
  its \<^verbatim>\<open>then\<close> method, which \<^verbatim>\<open>await\<close> calls. \<open>pause\<close>, \<open>resume\<close> and
  \<open>stop\<close> build their update and drop the builder (no \<^verbatim>\<open>await\<close>, no
  \<^verbatim>\<open>then\<close>), so nothing is sent: \<open>not_awaited\<close>. \<open>completeSession\<close> and the
  loop await theirs.
\<close>

definition update_session :: "sid \<Rightarrow> (scraping_session \<Rightarrow> scraping_session) \<Rightarrow> world \<Rightarrow> world" where
  "update_session i f w =
     (case sessions w i of None \<Rightarrow> w | Some s \<Rightarrow> w\<lparr>sessions := (sessions w)(i \<mapsto> f s)\<rparr>)"

definition not_awaited :: "(world \<Rightarrow> world) \<Rightarrow> world \<Rightarrow> world" where
  "not_awaited query w = w"

definition pause :: "scraper \<Rightarrow> world \<Rightarrow> scraper \<times> world" where
  "pause sc w =
     (sc\<lparr>isPaused := True\<rparr>,
      case sessionId sc of
        None \<Rightarrow> w
      | Some i \<Rightarrow> not_awaited (update_session i (\<lambda>s. s\<lparr>status := ''paused''\<rparr>)) w)"

definition resume :: "scraper \<Rightarrow> world \<Rightarrow> scraper \<times> world" where
  "resume sc w =
     (sc\<lparr>isPaused := False\<rparr>,
      case sessionId sc of
        None \<Rightarrow> w
      | Some i \<Rightarrow> not_awaited (update_session i (\<lambda>s. s\<lparr>status := ''running''\<rparr>)) w)"

definition stop :: "time \<Rightarrow> scraper \<Rightarrow> world \<Rightarrow> scraper \<times> world" where
  "stop now sc w =
     (sc\<lparr>abortController := map_option (\<lambda>b. True) (abortController sc), isRunning := False\<rparr>,
      case sessionId sc of
        None \<Rightarrow> w
      | Some i \<Rightarrow>
          not_awaited (update_session i (\<lambda>s. s\<lparr>status := ''completed'', completed_at := Some now\<rparr>)) w)"

text \<open>
  A run of \<open>scrapeListings\<close> is one task; the user interface calls \<open>pause\<close>, \<open>resume\<close> and
  \<open>stop\<close> while the task waits at an \<^verbatim>\<open>await\<close>. The schedule lists, for each
  \<^verbatim>\<open>await\<close> of the run in turn, the calls that arrive during it; after the end of the
  schedule no call arrives.
\<close>

datatype ui_call = CallPause | CallResume | CallStop time

record run_state =
  scr :: scraper
  wld :: world
  sched :: "ui_call list list"

definition ui :: "ui_call \<Rightarrow> scraper \<times> world \<Rightarrow> scraper \<times> world" where
  "ui c sw =
     (case c of
        CallPause \<Rightarrow> pause (fst sw) (snd sw)
      | CallResume \<Rightarrow> resume (fst sw) (snd sw)
      | CallStop now \<Rightarrow> stop now (fst sw) (snd sw))"

definition await :: "run_state \<Rightarrow> run_state" where
  "await st =
     (case sched st of
        [] \<Rightarrow> st
      | calls # later \<Rightarrow>
          (let sw = foldl (\<lambda>sw c. ui c sw) (scr st, wld st) calls
           in \<lparr>scr = fst sw, wld = snd sw, sched = later\<rparr>))"

text \<open>
  \<^verbatim>\<open>while (this.isPaused) { await sleep(100); if (aborted) break; }\<close>.
  A paused scraper that no call will ever resume or stop polls forever: \<open>None\<close>.
\<close>

fun pause_wait :: "scraper \<Rightarrow> world \<Rightarrow> ui_call list list \<Rightarrow> run_state option" where
  "pause_wait sc w [] =
     (if isPaused sc then None else Some \<lparr>scr = sc, wld = w, sched = []\<rparr>)"
| "pause_wait sc w (calls # later) =
     (if isPaused sc then
        (let st = await \<lparr>scr = sc, wld = w, sched = calls # later\<rparr>
         in if aborted (scr st) then Some st else pause_wait (scr st) (wld st) later)
      else Some \<lparr>scr = sc, wld = w, sched = calls # later\<rparr>)"

text \<open>
  What \<open>completeSession\<close> is given by the store: whether it accepts the update of the
  session, whether the select of the session answers, whether it accepts the insert into
  \<^verbatim>\<open>search_cache\<close>, and its own clock at that insert.
\<close>

record completion_answers =
  status_update_ok :: bool
  session_select_ok :: bool
  cache_insert_ok :: bool
  cache_insert_at :: time

text \<open>
  What the run is given: which inserts of listings and which updates of the counter the
  store rejects (by index in the adapter's list), the client's time when the session is
  completed, the store's answers at completion, and the network and the store's answers for
  the processing function that the run calls at its end.
\<close>

record run_env =
  rejects :: "nat \<Rightarrow> bool"
  counter_rejects :: "nat \<Rightarrow> bool"
  done_at :: time
  completion :: completion_answers
  net_env :: network
  db_env :: store_answers

text \<open>
  The \<^verbatim>\<open>for\<close> loop from index \<open>i\<close> over the remaining listings. A rejected insert
  is logged and the loop continues with the next index. The result of the update of the
  counter is not read: a rejected update leaves the counter and the loop goes on to the
  progress callback. The adapter's listings carry no session; the insert sets it.
\<close>

fun scrape_loop :: "run_env \<Rightarrow> sid \<Rightarrow> nat \<Rightarrow> listing list \<Rightarrow> run_state \<Rightarrow> run_state option" where
  "scrape_loop env sessId i [] st = Some st"
| "scrape_loop env sessId i (l # rest) st =
     (if aborted (scr st) then Some st
      else
        (case pause_wait (scr st) (wld st) (sched st) of
           None \<Rightarrow> None
         | Some st1 \<Rightarrow>
             if aborted (scr st1) then Some st1
             else
               (let st2 = await st1 in
                if rejects env i then scrape_loop env sessId (i + 1) rest (await st2)
                else
                  (let row = l\<lparr>session_id := sessId\<rparr>;
                       st3 = await (st2\<lparr>wld := (wld st2)\<lparr>listings := listings (wld st2) @ [row]\<rparr>\<rparr>);
                       st4 = await
                               (if counter_rejects env i then st3
                                else st3\<lparr>wld := update_session sessId
                                        (\<lambda>s. s\<lparr>total_records := int i + 1\<rparr>) (wld st3)\<rparr>);
                       st5 = st4\<lparr>wld := (wld st4)\<lparr>progress := progress (wld st4) @ [row]\<rparr>\<rparr>
                   in scrape_loop env sessId (i + 1) rest st5))))"

definition seven_days :: int where
  "seven_days = 7 * 24 * 60 * 60 * 1000"

text \<open>
  \<open>completeSession\<close> at the client's time \<open>now\<close>: three awaited queries, none of whose
  errors is read. A refused update leaves the session row; a select that fails gives no
  session and the insert is skipped; the insert into \<^verbatim>\<open>search_cache\<close> takes
  \<^verbatim>\<open>cached_at\<close> and \<^verbatim>\<open>expires_at\<close> from the column defaults
  \<^verbatim>\<open>now()\<close> and \<^verbatim>\<open>now() + interval '7 days'\<close> on the store's clock, and a
  refused insert, or a session without \<^verbatim>\<open>search_query\<close> (NOT NULL), leaves no row.
\<close>

definition completeSession :: "time \<Rightarrow> completion_answers \<Rightarrow> run_state \<Rightarrow> run_state" where
  "completeSession now ans st =
     (let st' =
        (case (sessionId (scr st), userId (scr st)) of
           (Some i, Some u) \<Rightarrow>
             (let st1 = await
                          (if status_update_ok ans
                           then st\<lparr>wld := update_session i
                                   (\<lambda>s. s\<lparr>status := ''completed'', completed_at := Some now\<rparr>) (wld st)\<rparr>
                           else st);
                  st2 = await st1
              in case (if session_select_ok ans then sessions (wld st1) i else None) of
                   None \<Rightarrow> st2
                 | Some session \<Rightarrow>
                     (case search_query session of
                        None \<Rightarrow> await st2
                      | Some q \<Rightarrow>
                          if cache_insert_ok ans then
                            await (st2\<lparr>wld := (wld st2)\<lparr>search_cache := search_cache (wld st2) @
                              [\<lparr>c_user_id = u, c_search_query = q,
                                c_business_type = business_type session,
                                c_location = location session,
                                c_session_id = i, result_count = total_records session,
                                cached_at = cache_insert_at ans,
                                expires_at = cache_insert_at ans + seven_days\<rparr>]\<rparr>\<rparr>)
                          else await st2))
         | _ \<Rightarrow> st)
      in st'\<lparr>scr := (scr st')\<lparr>isRunning := False\<rparr>\<rparr>)"

text \<open>
  \<open>processListings\<close>: the call of the processing function, whose answer is only logged
  (after one more \<^verbatim>\<open>await\<close>, for the body, when the status is not 500).
\<close>

definition processListings :: "run_env \<Rightarrow> run_state \<Rightarrow> run_state" where
  "processListings env st =
     (case sessionId (scr st) of
        None \<Rightarrow> st
      | Some i \<Rightarrow>
          (let r = process_listings (net_env env) (db_env env) (POST (Inr i)) (wld st);
               st1 = await (st\<lparr>wld := (snd r)\<lparr>engine_calls := engine_calls (snd r) @ [i]\<rparr>\<rparr>)
           in if is_failure (fst r) then st1 else await st1))"

text \<open>
  The answer of the listing source: no response at all (\<^verbatim>\<open>fetch\<close> throws), a
  response that is not ok, a body with \<^verbatim>\<open>success: false\<close>, or a body with the
  listings (\<open>None\<close> for a missing field, read as the empty list).
\<close>

datatype adapter_answer =
    Unreachable string
  | NotOk
  | Unsuccessful "string option"
  | Listings "listing list option"

definition scrapeListings ::
  "run_env \<Rightarrow> adapter_answer \<Rightarrow> run_state \<Rightarrow> ((string + unit) \<times> run_state) option" where
  "scrapeListings env answer st =
     (case sessionId (scr st) of
        None \<Rightarrow> Some (Inl ''Session not started'', st)
      | Some i \<Rightarrow>
          (case answer of
             Unreachable e \<Rightarrow> Some (Inl e, await st)
           | NotOk \<Rightarrow> Some (Inl ''Failed to fetch listings from SearchAPI'', await st)
           | Unsuccessful e \<Rightarrow>
               Some (Inl (case e of None \<Rightarrow> ''Failed to scrape listings'' | Some m \<Rightarrow>
                            if m = [] then ''Failed to scrape listings'' else m),
                     await (await st))
           | Listings ls \<Rightarrow>
               (case scrape_loop env i 0 (case ls of None \<Rightarrow> [] | Some xs \<Rightarrow> xs) (await (await st)) of
                  None \<Rightarrow> None
                | Some st1 \<Rightarrow>
                    if \<not> aborted (scr st1)
                    then Some (Inr (), processListings env (completeSession (done_at env) (completion env) st1))
                    else Some (Inr (), st1))))"

section \<open>Concrete inputs\<close>

text \<open>
  The spec's scenario: three listings of session 7, two of them the same company up to case
  and surrounding white space, the third with a website that does not answer.
\<close>

definition acme1 :: listing where
  "acme1 = \<lparr>session_id = 7, name = ''Acme Cafe'', rating = None, website = Some ''acme.example'',
            address = Some ''1 Main St'', phone = None\<rparr>"

definition acme2 :: listing where
  "acme2 = \<lparr>session_id = 7, name = ''  ACME cafe '', rating = None,
            website = Some ''acme.example'', address = Some '' 1 main st  '', phone = None\<rparr>"

definition bistro :: listing where
  "bistro = \<lparr>session_id = 7, name = ''Bistro'', rating = None, website = Some ''down.example'',
             address = Some ''2 Side St'', phone = None\<rparr>"

definition httpbin :: listing where
  "httpbin = \<lparr>session_id = 7, name = ''Httpbin'', rating = None, website = Some ''httpbin.org'',
              address = None, phone = None\<rparr>"

definition net_live :: network where
  "net_live k r = (if url r = ''https://acme.example'' then Status 200 else Thrown ''down'')"

definition net_down :: network where
  "net_down k r = Thrown ''down''"

definition net_all_live :: network where
  "net_all_live k r = Status 200"

definition db_ok :: store_answers where
  "db_ok = \<lparr>fetchError = None, insertError = (\<lambda>batch. None), updateError = None\<rparr>"

definition db_update_fails :: store_answers where
  "db_update_fails = \<lparr>fetchError = None, insertError = (\<lambda>batch. None),
                       updateError = Some ''update rejected''\<rparr>"

definition db_insert_fails :: store_answers where
  "db_insert_fails = \<lparr>fetchError = None, insertError = (\<lambda>batch. Some ''insert rejected''),
                       updateError = None\<rparr>"

definition db_fetch_fails :: store_answers where
  "db_fetch_fails = \<lparr>fetchError = Some ''select rejected'', insertError = (\<lambda>batch. None),
                      updateError = None\<rparr>"

definition session7 :: scraping_session where
  "session7 = \<lparr>user_id = Some 1, business_type = ''cafes'', location = ''Pune, India'',
               search_query = Some ''cafes|pune, india'', status = ''completed'',
               total_records = 3, processing_status = ''pending'', completed_at = Some 1000\<rparr>"

definition world7 :: "listing list \<Rightarrow> world" where
  "world7 ls = \<lparr>sessions = [7 \<mapsto> session7], listings = ls, processed_listings = [],
                search_cache = [], engine_calls = [], progress = []\<rparr>"

text \<open>
  A scraper started by user 1 on an empty store, the store answering with session 7; runs
  of it with a first insert that the store rejects, and with a stop during the first delay.
\<close>

definition empty_world :: world where
  "empty_world = \<lparr>sessions = Map.empty, listings = [], processed_listings = [],
                   search_cache = [], engine_calls = [], progress = []\<rparr>"

definition started :: "string \<Rightarrow> string \<Rightarrow> run_state" where
  "started businessType loc =
     (let r = startSession new_scraper empty_world businessType loc 1 (Inr 7)
      in \<lparr>scr = fst (snd r), wld = snd (snd r), sched = []\<rparr>)"

definition accepted_at :: "time \<Rightarrow> completion_answers" where
  "accepted_at t = \<lparr>status_update_ok = True, session_select_ok = True, cache_insert_ok = True,
                    cache_insert_at = t\<rparr>"

definition env_first_rejected :: run_env where
  "env_first_rejected =
     \<lparr>rejects = (\<lambda>i. i = 0), counter_rejects = (\<lambda>i. False), done_at = 5000,
      completion = accepted_at 5000, net_env = net_down, db_env = db_ok\<rparr>"

definition env_ok :: run_env where
  "env_ok =
     \<lparr>rejects = (\<lambda>i. False), counter_rejects = (\<lambda>i. False), done_at = 5000,
      completion = accepted_at 5000, net_env = net_down, db_env = db_ok\<rparr>"

text \<open>
  The store after the natural completion, at time 5000 and with every query accepted, of a
  session started for a query; and the store after the same user has completed a second
  session, 8, for the query \<open>cafes\<close> in \<open>Pune, India\<close> at time 6000.
\<close>

definition cached_world :: "string \<Rightarrow> string \<Rightarrow> world" where
  "cached_world businessType loc =
     wld (completeSession 5000 (accepted_at 5000) (started businessType loc))"

definition twice_cached :: world where
  "twice_cached =
     (let r = startSession new_scraper (cached_world ''cafes'' ''Pune, India'')
                ''cafes'' ''Pune, India'' 1 (Inr 8)
      in wld (completeSession 6000 (accepted_at 6000)
                \<lparr>scr = fst (snd r), wld = snd (snd r), sched = []\<rparr>))"

section \<open>Lower case and trim commute\<close>

lemma toLowerCase_char_white: "isWhiteSpace (toLowerCase_char c) = isWhiteSpace c"
proof (cases "(65 \<le> (of_char c :: nat) \<and> (of_char c :: nat) \<le> 90) \<or>
              (192 \<le> (of_char c :: nat) \<and> (of_char c :: nat) \<le> 222 \<and> (of_char c :: nat) \<noteq> 215)")
  case False
  then have "toLowerCase_char c = c" unfolding toLowerCase_char_def Let_def by (simp only: if_False)
  then show ?thesis by simp
next
  case True
  then have "(of_char c :: nat) + 32 < 256" "97 \<le> (of_char c :: nat) + 32"
    "(of_char c :: nat) + 32 \<noteq> 160" by auto
  then have "\<not> isWhiteSpace (char_of ((of_char c :: nat) + 32))"
    by (simp add: isWhiteSpace_def)
  moreover from True have "\<not> isWhiteSpace c" by (auto simp: isWhiteSpace_def)
  moreover from True have "toLowerCase_char c = char_of ((of_char c :: nat) + 32)"
    unfolding toLowerCase_char_def Let_def by (simp only: if_True)
  ultimately show ?thesis by simp
qed

lemma dropWhile_toLowerCase:
  "dropWhile isWhiteSpace (map toLowerCase_char s) = map toLowerCase_char (dropWhile isWhiteSpace s)"
  by (induction s) (simp_all add: toLowerCase_char_white)

lemma lower_trim_commute: "trim (toLowerCase s) = toLowerCase (trim s)"
  by (simp add: trim_def toLowerCase_def dropWhile_toLowerCase rev_map)

section \<open>The dedup pass\<close>

lemma seen_process_one:
  "seenCompanies (process_one net sid st l) k \<noteq> None \<longleftrightarrow>
     seenCompanies st k \<noteq> None \<or> k = companyKey l"
  unfolding process_one_def isDuplicate_def Let_def case_prod_beta by auto

lemma seen_foldl:
  "seenCompanies (foldl (process_one net sid) st ls) k \<noteq> None \<longleftrightarrow>
     seenCompanies st k \<noteq> None \<or> k \<in> companyKey ` set ls"
proof (induction ls arbitrary: st)
  case Nil
  show ?case by simp
next
  case (Cons a ls)
  have "seenCompanies (foldl (process_one net sid) (process_one net sid st a) ls) k \<noteq> None \<longleftrightarrow>
        seenCompanies (process_one net sid st a) k \<noteq> None \<or> k \<in> companyKey ` set ls"
    by (rule Cons.IH)
  also have "\<dots> \<longleftrightarrow> (seenCompanies st k \<noteq> None \<or> k = companyKey a) \<or> k \<in> companyKey ` set ls"
    by (simp only: seen_process_one)
  finally show ?case by auto
qed

lemma isDuplicate_prefix:
  "isDuplicate (process_loop net sid (take i ls)) l \<longleftrightarrow> companyKey l \<in> companyKey ` set (take i ls)"
  unfolding isDuplicate_def process_loop_def
  by (simp only: seen_foldl) (simp add: loop_init_def)

lemma key_in_take:
  assumes "i \<le> length ls"
  shows "k \<in> f ` set (take i ls) \<longleftrightarrow> (\<exists>j<i. f (ls ! j) = k)"
proof
  assume "k \<in> f ` set (take i ls)"
  then obtain x where x: "x \<in> set (take i ls)" "k = f x" by blast
  then obtain j where j: "j < length (take i ls)" "take i ls ! j = x"
    by (auto simp: in_set_conv_nth)
  with assms have "j < i" "ls ! j = x" by simp_all
  with x show "\<exists>j<i. f (ls ! j) = k" by blast
next
  assume "\<exists>j<i. f (ls ! j) = k"
  then obtain j where j: "j < i" "f (ls ! j) = k" by blast
  with assms have "j < length (take i ls)" "take i ls ! j = ls ! j" by simp_all
  then have "ls ! j \<in> set (take i ls)" by (metis nth_mem)
  with j show "k \<in> f ` set (take i ls)" by blast
qed

lemma process_loop_snoc:
  "i < length ls \<Longrightarrow> process_loop net sid (take (Suc i) ls) = process_one net sid (process_loop net sid (take i ls)) (ls ! i)"
  by (simp add: process_loop_def take_Suc_conv_app_nth)

lemma state_before_Suc:
  "i < length ls \<Longrightarrow>
   state_before net sid ls (Suc i) = process_one net sid (state_before net sid ls i) (ls ! i)"
  by (simp add: state_before_def process_loop_snoc)

lemma state_before_length: "state_before net sid ls (length ls) = process_loop net sid ls"
  by (simp add: state_before_def)

lemma isDuplicate_iff_earlier:
  assumes "i \<le> length ls"
  shows "isDuplicate (state_before net sid ls i) l \<longleftrightarrow> (\<exists>j<i. companyKey (ls ! j) = companyKey l)"
  unfolding state_before_def isDuplicate_prefix using assms by (rule key_in_take)

lemma duplicate_step:
  "isDuplicate st l \<Longrightarrow>
   requests (process_one net sid st l) = requests st \<and>
   processedListings (process_one net sid st l) = processedListings st"
  unfolding process_one_def verifyWebsite_def Let_def case_prod_beta by simp

lemma first_exists:
  "\<exists>r\<le>i. f (ls ! r) = f (ls ! i) \<and> (\<forall>j<r. f (ls ! j) \<noteq> f (ls ! i))"
proof -
  define r where "r = (LEAST r. f (ls ! r) = f (ls ! i))"
  have a: "f (ls ! r) = f (ls ! i)" unfolding r_def by (rule LeastI [of _ i]) simp
  have b: "r \<le> i" unfolding r_def by (rule Least_le) simp
  have c: "\<forall>j<r. f (ls ! j) \<noteq> f (ls ! i)" unfolding r_def using not_less_Least by blast
  from a b c show ?thesis by blast
qed

lemma companyKey_lower_trim:
  "companyKey l = toLowerCase (trim (name l)) @ ''|'' @ toLowerCase (trim (or_empty (address l)))"
  by (simp add: companyKey_def Let_def lower_trim_commute)

text \<open>
  C2. The dedup key is the lower-cased trimmed name, a bar, and the lower-cased trimmed
  address (empty when absent). In the order in which the loop takes the listings, a listing
  is classified a duplicate exactly when an earlier listing has its dedup key; an iteration
  on a duplicate sends no request and adds no row; and among the listings with one key
  exactly one is not a duplicate, the one with the smallest index.
\<close>

theorem dedup_first_occurrence:
  assumes "i < length ls"
  shows "companyKey (ls ! i) =
           toLowerCase (trim (name (ls ! i))) @ ''|'' @ toLowerCase (trim (or_empty (address (ls ! i)))) \<and>
         (isDuplicate (state_before net sid ls i) (ls ! i) \<longleftrightarrow>
            (\<exists>j<i. companyKey (ls ! j) = companyKey (ls ! i))) \<and>
         (isDuplicate (state_before net sid ls i) (ls ! i) \<longrightarrow>
            requests (state_before net sid ls (Suc i)) = requests (state_before net sid ls i) \<and>
            processedListings (state_before net sid ls (Suc i)) =
              processedListings (state_before net sid ls i)) \<and>
         (\<exists>r\<le>i. companyKey (ls ! r) = companyKey (ls ! i) \<and>
            \<not> isDuplicate (state_before net sid ls r) (ls ! r) \<and>
            (\<forall>k<length ls. companyKey (ls ! k) = companyKey (ls ! i) \<longrightarrow>
               r \<le> k \<and> (\<not> isDuplicate (state_before net sid ls k) (ls ! k) \<longrightarrow> k = r)))"
proof (intro conjI)
  show "companyKey (ls ! i) =
           toLowerCase (trim (name (ls ! i))) @ ''|'' @ toLowerCase (trim (or_empty (address (ls ! i))))"
    by (rule companyKey_lower_trim)
  show "isDuplicate (state_before net sid ls i) (ls ! i) \<longleftrightarrow>
        (\<exists>j<i. companyKey (ls ! j) = companyKey (ls ! i))"
    using assms by (simp add: isDuplicate_iff_earlier)
  show "isDuplicate (state_before net sid ls i) (ls ! i) \<longrightarrow>
        requests (state_before net sid ls (Suc i)) = requests (state_before net sid ls i) \<and>
        processedListings (state_before net sid ls (Suc i)) =
          processedListings (state_before net sid ls i)"
    using assms by (simp add: state_before_Suc duplicate_step)
  obtain r where r: "r \<le> i" "companyKey (ls ! r) = companyKey (ls ! i)"
      "\<forall>j<r. companyKey (ls ! j) \<noteq> companyKey (ls ! i)"
    using first_exists [where f = companyKey and ls = ls and i = i] by blast
  have dup: "isDuplicate (state_before net sid ls k) (ls ! k) \<longleftrightarrow>
        (\<exists>j<k. companyKey (ls ! j) = companyKey (ls ! k))" if "k < length ls" for k
    using that by (simp add: isDuplicate_iff_earlier)
  have rl: "r < length ls" using r(1) assms by simp
  have "\<not> isDuplicate (state_before net sid ls r) (ls ! r)"
    using dup [OF rl] r(2,3) by simp
  moreover have "r \<le> k \<and> (\<not> isDuplicate (state_before net sid ls k) (ls ! k) \<longrightarrow> k = r)"
    if k: "k < length ls" "companyKey (ls ! k) = companyKey (ls ! i)" for k
  proof -
    have le: "r \<le> k" using r(3) k(2) by (meson not_le_imp_less)
    have "k = r" if nd: "\<not> isDuplicate (state_before net sid ls k) (ls ! k)"
    proof (rule ccontr)
      assume "k \<noteq> r"
      with le have "r < k" by simp
      with r(2) k(2) have "\<exists>j<k. companyKey (ls ! j) = companyKey (ls ! k)" by auto
      with nd dup [OF k(1)] show False by simp
    qed
    with le show ?thesis by simp
  qed
  ultimately show "\<exists>r\<le>i. companyKey (ls ! r) = companyKey (ls ! i) \<and>
            \<not> isDuplicate (state_before net sid ls r) (ls ! r) \<and>
            (\<forall>k<length ls. companyKey (ls ! k) = companyKey (ls ! i) \<longrightarrow>
               r \<le> k \<and> (\<not> isDuplicate (state_before net sid ls k) (ls ! k) \<longrightarrow> k = r))"
    using r(1,2) by blast
qed

lemma scenario_same_company: "companyKey acme1 = companyKey acme2"
  by code_simp

theorem dedup_first_occurrence_witness:
  "(1::nat) < length [acme1, acme2, bistro] \<and>
   isDuplicate (state_before net_live 7 [acme1, acme2, bistro] 1) ([acme1, acme2, bistro] ! 1) \<and>
   requests (state_before net_live 7 [acme1, acme2, bistro] (Suc 1)) =
     requests (state_before net_live 7 [acme1, acme2, bistro] 1)"
proof -
  have h: "(1::nat) < length [acme1, acme2, bistro]" by simp
  have k: "\<exists>j<1::nat. companyKey ([acme1, acme2, bistro] ! j) = companyKey ([acme1, acme2, bistro] ! 1)"
    using scenario_same_company by simp
  from dedup_first_occurrence [OF h, of net_live 7] k h show ?thesis by blast
qed

lemma verifyWebsite_eq:
  "verifyWebsite net reqs l dup =
     (if truthy (website l) \<and> \<not> dup
      then (live_status (fst (fetch_head net reqs (head_of (or_empty (website l))))),
            status_of (fst (fetch_head net reqs (head_of (or_empty (website l))))),
            snd (fetch_head net reqs (head_of (or_empty (website l)))))
      else (False, 0, reqs))"
  unfolding verifyWebsite_def live_status_def status_of_def Let_def
  by (simp split: head_response.split)

lemma step_processed:
  "processedListings (process_one net sid st l) =
     (if \<not> isDuplicate st l \<and> truthy (website l) \<and>
         live_status (fst (fetch_head net (requests st) (head_of (or_empty (website l)))))
      then processedListings st @
             [processed_row sid l True
                (status_of (fst (fetch_head net (requests st) (head_of (or_empty (website l))))))]
      else processedListings st)"
  unfolding process_one_def Let_def case_prod_beta verifyWebsite_eq by simp

lemma processed_row_flags:
  "is_duplicate (processed_row sid l v c) = False"
  "is_website_verified (processed_row sid l v c) = v"
  "website_status_code (processed_row sid l v c) = c"
  by (simp_all add: processed_row_def)

lemma rows_flags_step:
  assumes "list_all (\<lambda>r. \<not> is_duplicate r \<and> is_website_verified r) (processedListings st)"
  shows "list_all (\<lambda>r. \<not> is_duplicate r \<and> is_website_verified r)
           (processedListings (process_one net sid st l))"
  using assms by (simp add: step_processed processed_row_flags)

lemma rows_flags_foldl:
  "list_all (\<lambda>r. \<not> is_duplicate r \<and> is_website_verified r) (processedListings st) \<Longrightarrow>
   list_all (\<lambda>r. \<not> is_duplicate r \<and> is_website_verified r)
     (processedListings (foldl (process_one net sid) st ls))"
proof (induction ls arbitrary: st)
  case Nil
  then show ?case by simp
next
  case (Cons a ls)
  from Cons.prems have "list_all (\<lambda>r. \<not> is_duplicate r \<and> is_website_verified r)
      (processedListings (process_one net sid st a))"
    by (rule rows_flags_step)
  then show ?case using Cons.IH by simp
qed

lemma rows_flags:
  "list_all (\<lambda>r. \<not> is_duplicate r \<and> is_website_verified r)
     (processedListings (process_loop net sid ls))"
  unfolding process_loop_def by (rule rows_flags_foldl) (simp add: loop_init_def)

lemma first_occurrence_iff:
  "first_occurrence ls i \<longleftrightarrow> (\<forall>j<i. companyKey (ls ! j) \<noteq> companyKey (ls ! i))"
  by (auto simp: first_occurrence_def list_all_iff)

lemma batch_rows:
  "n \<le> length ls \<Longrightarrow>
   processedListings (state_before net sid ls n) =
   concat (map (\<lambda>i. if first_occurrence ls i \<and> truthy (website (ls ! i)) \<and>
                        live_status (answer_at net sid ls i)
                     then [processed_row sid (ls ! i) True (status_of (answer_at net sid ls i))]
                     else [])
             [0..<n])"
proof (induction n)
  case 0
  show ?case by (simp add: state_before_def process_loop_def loop_init_def)
next
  case (Suc n)
  then have n: "n < length ls" by simp
  have d: "isDuplicate (state_before net sid ls n) (ls ! n) \<longleftrightarrow> \<not> first_occurrence ls n"
    using n by (simp add: isDuplicate_iff_earlier first_occurrence_iff)
  from Suc n have ih: "processedListings (state_before net sid ls n) =
     concat (map (\<lambda>i. if first_occurrence ls i \<and> truthy (website (ls ! i)) \<and>
                        live_status (answer_at net sid ls i)
                     then [processed_row sid (ls ! i) True (status_of (answer_at net sid ls i))]
                     else [])
             [0..<n])" by simp
  show ?case
    by (simp add: state_before_Suc [OF n] step_processed d ih answer_at_def)
qed

lemma process_listings_post:
  "process_listings net db (POST (Inr i)) w =
     (if fetchError db \<noteq> None then (failure (the (fetchError db)), w)
      else if session_listings i w = [] then (NoListings, w)
      else if processedListings (process_loop net i (session_listings i w)) \<noteq> [] \<and>
              insertError db (processedListings (process_loop net i (session_listings i w))) \<noteq> None
      then (failure (the (insertError db (processedListings (process_loop net i (session_listings i w))))), w)
      else (Summary (int (length (processedListings (process_loop net i (session_listings i w)))))
                    (int (length (session_listings i w)))
                    (int (length (session_listings i w)) -
                     int (length (processedListings (process_loop net i (session_listings i w))))),
            if updateError db = None
            then mark_processed i (w\<lparr>processed_listings := processed_listings w @
               processedListings (process_loop net i (session_listings i w))\<rparr>)
            else w\<lparr>processed_listings := processed_listings w @
               processedListings (process_loop net i (session_listings i w))\<rparr>))"
  unfolding process_listings_def session_listings_def Let_def
  by (simp split: option.split)

lemma processed_listings_mark [simp]:
  "processed_listings (mark_processed i w) = processed_listings w"
  by (simp add: mark_processed_def split: option.split)

lemma persisted_rows:
  "processed_listings (snd (process_listings net db (POST (Inr sid)) w)) =
     processed_listings w @
       (if fetchError db = None \<and>
           (processedListings (process_loop net sid (session_listings sid w)) = [] \<or>
            insertError db (processedListings (process_loop net sid (session_listings sid w))) = None)
        then processedListings (process_loop net sid (session_listings sid w)) else [])"
proof (cases "session_listings sid w = []")
  case True
  then show ?thesis by (simp add: process_listings_post process_loop_def loop_init_def)
next
  case False
  then show ?thesis by (simp add: process_listings_post)
qed

text \<open>
  C3 (as amended). In a run in which the store answers the select of the raw listings and
  accepts the insert of the batch, the rows added to \<open>processed_listings\<close> are, in the
  order of the raw listings, one row for each listing that is the first with its dedup key
  and whose non-empty website was answered with a status in [200,400), carrying that status,
  and no row for any other listing. Every row a run adds has \<open>is_duplicate = false\<close> and
  \<open>is_website_verified = true\<close>. A run in which the select fails, or the insert of a
  non-empty batch fails, adds no row.
\<close>

theorem processed_iff_first_and_verified:
  "(fetchError db = None \<and>
    insertError db (processedListings (process_loop net sid (session_listings sid w))) = None \<longrightarrow>
      processed_listings (snd (process_listings net db (POST (Inr sid)) w)) =
        processed_listings w @
        concat (map (\<lambda>i. if first_occurrence (session_listings sid w) i \<and>
                             truthy (website (session_listings sid w ! i)) \<and>
                             live_status (answer_at net sid (session_listings sid w) i)
                          then [processed_row sid (session_listings sid w ! i) True
                                  (status_of (answer_at net sid (session_listings sid w) i))]
                          else [])
                  [0..<length (session_listings sid w)])) \<and>
   list_all (\<lambda>r. \<not> is_duplicate r \<and> is_website_verified r)
     (drop (length (processed_listings w))
        (processed_listings (snd (process_listings net db (POST (Inr sid)) w)))) \<and>
   (fetchError db \<noteq> None \<or>
    (processedListings (process_loop net sid (session_listings sid w)) \<noteq> [] \<and>
     insertError db (processedListings (process_loop net sid (session_listings sid w))) \<noteq> None) \<longrightarrow>
      processed_listings (snd (process_listings net db (POST (Inr sid)) w)) = processed_listings w)"
proof (intro conjI impI)
  assume a: "fetchError db = None \<and>
    insertError db (processedListings (process_loop net sid (session_listings sid w))) = None"
  have "processedListings (process_loop net sid (session_listings sid w)) =
        concat (map (\<lambda>i. if first_occurrence (session_listings sid w) i \<and>
                             truthy (website (session_listings sid w ! i)) \<and>
                             live_status (answer_at net sid (session_listings sid w) i)
                          then [processed_row sid (session_listings sid w ! i) True
                                  (status_of (answer_at net sid (session_listings sid w) i))]
                          else [])
                  [0..<length (session_listings sid w)])"
    using batch_rows [of "length (session_listings sid w)" "session_listings sid w" net sid]
    by (simp add: state_before_length)
  with a show "processed_listings (snd (process_listings net db (POST (Inr sid)) w)) =
        processed_listings w @
        concat (map (\<lambda>i. if first_occurrence (session_listings sid w) i \<and>
                             truthy (website (session_listings sid w ! i)) \<and>
                             live_status (answer_at net sid (session_listings sid w) i)
                          then [processed_row sid (session_listings sid w ! i) True
                                  (status_of (answer_at net sid (session_listings sid w) i))]
                          else [])
                  [0..<length (session_listings sid w)])"
    by (simp add: persisted_rows)
next
  show "list_all (\<lambda>r. \<not> is_duplicate r \<and> is_website_verified r)
     (drop (length (processed_listings w))
        (processed_listings (snd (process_listings net db (POST (Inr sid)) w))))"
    using rows_flags [of net sid "session_listings sid w"] by (simp add: persisted_rows)
next
  assume "fetchError db \<noteq> None \<or>
    (processedListings (process_loop net sid (session_listings sid w)) \<noteq> [] \<and>
     insertError db (processedListings (process_loop net sid (session_listings sid w))) \<noteq> None)"
  then show "processed_listings (snd (process_listings net db (POST (Inr sid)) w)) =
             processed_listings w"
    by (auto simp: persisted_rows)
qed

theorem processed_iff_first_and_verified_witness:
  "fetchError db_ok = None \<and>
   insertError db_ok
     (processedListings (process_loop net_live 7 (session_listings 7 (world7 [acme1, acme2, bistro]))))
     = None \<and>
   processed_listings
     (snd (process_listings net_live db_ok (POST (Inr 7)) (world7 [acme1, acme2, bistro]))) =
     [processed_row 7 acme1 True 200]"
proof -
  have h: "fetchError db_ok = None \<and>
    insertError db_ok
      (processedListings (process_loop net_live 7 (session_listings 7 (world7 [acme1, acme2, bistro]))))
      = None"
    by (simp add: db_ok_def)
  have e: "processed_listings (world7 [acme1, acme2, bistro]) @
        concat (map (\<lambda>i. if first_occurrence (session_listings 7 (world7 [acme1, acme2, bistro])) i \<and>
                             truthy (website (session_listings 7 (world7 [acme1, acme2, bistro]) ! i)) \<and>
                             live_status
                               (answer_at net_live 7 (session_listings 7 (world7 [acme1, acme2, bistro])) i)
                          then [processed_row 7 (session_listings 7 (world7 [acme1, acme2, bistro]) ! i) True
                                  (status_of
                                     (answer_at net_live 7
                                        (session_listings 7 (world7 [acme1, acme2, bistro])) i))]
                          else [])
                  [0..<length (session_listings 7 (world7 [acme1, acme2, bistro]))]) =
        [processed_row 7 acme1 True 200]"
    by code_simp
  from processed_iff_first_and_verified [of db_ok net_live 7 "world7 [acme1, acme2, bistro]"] h e
  show ?thesis by simp
qed

theorem persisted_rows_counterexample:
  "first_occurrence [acme1, acme2, bistro] 0 \<and>
   truthy (website acme1) \<and>
   live_status (answer_at net_live 7 [acme1, acme2, bistro] 0) \<and>
   processed_listings
     (snd (process_listings net_live db_insert_fails (POST (Inr 7)) (world7 [acme1, acme2, bistro]))) = []"
  by code_simp

text \<open>
  C4. The listing's website is \<open>httpbin.org\<close>: it has no scheme, and it starts with the four
  characters \<open>http\<close>, so the loop hands it to \<^verbatim>\<open>fetch\<close> as it is. That is no
  absolute URL: \<^verbatim>\<open>fetch\<close> throws, no request is sent, and the listing is dropped
  as not verified, although a HEAD request to \<open>https://httpbin.org\<close> is answered with 200.
\<close>

theorem bare_http_website_not_requested:
  "website httpbin = Some ''httpbin.org'' \<and>
   \<not> has_scheme ''httpbin.org'' \<and>
   url (head_of ''httpbin.org'') = ''httpbin.org'' \<and>
   answer_at net_all_live 7 [httpbin] 0 = Thrown ''Invalid URL'' \<and>
   requests (process_loop net_all_live 7 [httpbin]) = [] \<and>
   processedListings (process_loop net_all_live 7 [httpbin]) = [] \<and>
   net_all_live 0 \<lparr>url = ''https://httpbin.org'', http_method = ''HEAD'', redirect = ''follow'',
                    timeout_ms = 5000\<rparr> = Status 200"
  by code_simp
section \<open>The answer of the processing function and the session row\<close>

lemma process_listings_other:
  "process_listings net db OPTIONS w = (Preflight, w)"
  "process_listings net db (POST (Inl e)) w = (failure e, w)"
  by (simp_all add: process_listings_def)

lemma sessions_mark:
  "sessions (mark_processed i w) i =
     map_option (\<lambda>s. s\<lparr>processing_status := ''completed''\<rparr>) (sessions w i)"
  by (simp add: mark_processed_def split: option.split)

text \<open>
  C7 (as amended). The function fails as a whole when the request body cannot be read, when
  reading the session's raw listings fails, or when the insert of a non-empty batch fails,
  and in no other case. In every failure case the store is left as it was; in particular
  \<open>processing_status\<close> is not set to completed.
\<close>

theorem engine_failure_cases:
  "is_failure (fst (process_listings net db req w)) =
     (case req of
        OPTIONS \<Rightarrow> False
      | POST (Inl e) \<Rightarrow> True
      | POST (Inr i) \<Rightarrow>
          fetchError db \<noteq> None \<or>
          (session_listings i w \<noteq> [] \<and>
           processedListings (process_loop net i (session_listings i w)) \<noteq> [] \<and>
           insertError db (processedListings (process_loop net i (session_listings i w))) \<noteq> None)) \<and>
   (is_failure (fst (process_listings net db req w)) \<longrightarrow> snd (process_listings net db req w) = w)"
proof (cases req)
  case OPTIONS
  then show ?thesis by (simp add: process_listings_other is_failure_def)
next
  case (POST b)
  show ?thesis
  proof (cases b)
    case (Inl e)
    with POST show ?thesis by (simp add: process_listings_other is_failure_def failure_def)
  next
    case (Inr i)
    with POST show ?thesis by (simp add: process_listings_post is_failure_def failure_def)
  qed
qed

theorem engine_failure_cases_witness:
  "is_failure (fst (process_listings net_live db_fetch_fails (POST (Inr 7))
                      (world7 [acme1, acme2, bistro]))) \<and>
   snd (process_listings net_live db_fetch_fails (POST (Inr 7)) (world7 [acme1, acme2, bistro])) =
     world7 [acme1, acme2, bistro]"
proof -
  have f: "fetchError db_fetch_fails \<noteq> None" by (simp add: db_fetch_fails_def)
  from engine_failure_cases [of net_live db_fetch_fails "POST (Inr 7)" "world7 [acme1, acme2, bistro]"] f
  show ?thesis by simp
qed

theorem engine_failure_counterexample:
  "fst (process_listings net_live db_insert_fails (POST (Inr 7)) (world7 [acme1, acme2, bistro])) =
     Failure ''insert rejected'' \<and>
   map_option processing_status
     (sessions (snd (process_listings net_live db_insert_fails (POST (Inr 7))
                       (world7 [acme1, acme2, bistro]))) 7) = Some ''pending'' \<and>
   fst (process_listings net_live db_fetch_fails (POST (Inr 7)) (world7 [acme1, acme2, bistro])) =
     Failure ''select rejected''"
  by code_simp

text \<open>
  C8 (as amended). A run over a non-empty set of raw listings in which the store answers the
  select, accepts the insert of the batch and accepts the final update answers with a
  summary and sets the \<open>processing_status\<close> of the session's row to completed. A run over
  an empty set of raw listings answers success with \<open>processed = 0\<close> before the loop and
  leaves the store, and with it \<open>processing_status\<close>, as it was.
\<close>

theorem processing_status_completed:
  "(session_listings i w \<noteq> [] \<and> fetchError db = None \<and>
    insertError db (processedListings (process_loop net i (session_listings i w))) = None \<and>
    updateError db = None \<longrightarrow>
      is_summary (fst (process_listings net db (POST (Inr i)) w)) \<and>
      map_option processing_status (sessions (snd (process_listings net db (POST (Inr i)) w)) i) =
        map_option (\<lambda>s. ''completed'') (sessions w i)) \<and>
   (session_listings i w = [] \<and> fetchError db = None \<longrightarrow>
      process_listings net db (POST (Inr i)) w = (NoListings, w))"
  by (simp add: process_listings_post is_summary_def sessions_mark option.map_comp comp_def)

theorem processing_status_completed_witness:
  "session_listings 7 (world7 [acme1, acme2, bistro]) \<noteq> [] \<and> fetchError db_ok = None \<and>
   updateError db_ok = None \<and>
   is_summary (fst (process_listings net_live db_ok (POST (Inr 7)) (world7 [acme1, acme2, bistro]))) \<and>
   map_option processing_status
     (sessions (snd (process_listings net_live db_ok (POST (Inr 7)) (world7 [acme1, acme2, bistro]))) 7)
     = Some ''completed''"
proof -
  have n: "session_listings 7 (world7 [acme1, acme2, bistro]) \<noteq> []" by code_simp
  have d: "fetchError db_ok = None" "updateError db_ok = None"
    "insertError db_ok
       (processedListings (process_loop net_live 7 (session_listings 7 (world7 [acme1, acme2, bistro]))))
       = None"
    by (simp_all add: db_ok_def)
  have r: "sessions (world7 [acme1, acme2, bistro]) 7 = Some session7" by (simp add: world7_def)
  from processing_status_completed [of 7 "world7 [acme1, acme2, bistro]" db_ok net_live] n d r
  show ?thesis by simp
qed

theorem processing_status_empty_counterexample:
  "session_listings 7 (world7 []) = [] \<and>
   fst (process_listings net_live db_ok (POST (Inr 7)) (world7 [])) = NoListings \<and>
   map_option processing_status
     (sessions (snd (process_listings net_live db_ok (POST (Inr 7)) (world7 []))) 7) = Some ''pending''"
  by code_simp

text \<open>
  C9 (as amended). Every answer with a summary reports \<open>duplicatesRemoved = total - processed\<close>,
  where total is the number of the session's raw listings and processed the size of the
  batch. In the three-listing scenario the report is 2 when the first listing's website is
  verified (processed = 1) and 3 when it is not (processed = 0).
\<close>

theorem summary_counts:
  assumes "fst (process_listings net db req w) = Summary p t d"
  shows "d = t - p \<and>
         (\<exists>i. req = POST (Inr i) \<and> t = int (length (session_listings i w)) \<and>
              p = int (length (processedListings (process_loop net i (session_listings i w)))))"
proof (cases req)
  case OPTIONS
  with assms show ?thesis by (simp add: process_listings_other)
next
  case (POST b)
  show ?thesis
  proof (cases b)
    case (Inl e)
    with POST assms show ?thesis by (simp add: process_listings_other failure_def)
  next
    case (Inr i)
    with POST assms show ?thesis by (auto simp: process_listings_post failure_def split: if_splits)
  qed
qed

theorem summary_counts_witness:
  "fst (process_listings net_live db_ok (POST (Inr 7)) (world7 [acme1, acme2, bistro])) = Summary 1 3 2 \<and>
   (2::int) = 3 - 1 \<and>
   int (length (session_listings 7 (world7 [acme1, acme2, bistro]))) = 3"
proof -
  have s: "fst (process_listings net_live db_ok (POST (Inr 7)) (world7 [acme1, acme2, bistro])) =
           Summary 1 3 2" by code_simp
  from summary_counts [OF s] s show ?thesis by simp
qed

theorem summary_unverified_counterexample:
  "fst (process_listings net_down db_ok (POST (Inr 7)) (world7 [acme1, acme2, bistro])) =
     Summary 0 3 3"
  by code_simp

section \<open>The scraper: counter, cache and stop\<close>

lemma ui_world: "snd (ui c sw) = snd sw"
  by (cases c) (simp_all add: ui_def pause_def resume_def stop_def not_awaited_def split: option.split)

lemma ui_calls_world: "snd (foldl (\<lambda>sw c. ui c sw) sw calls) = snd sw"
  by (induction calls arbitrary: sw) (simp_all add: ui_world)

lemma await_wld: "wld (await st) = wld st"
  by (cases "sched st") (simp_all add: await_def Let_def ui_calls_world)

lemma completeSession_wld:
  assumes "sessionId (scr st) = Some i" and "userId (scr st) = Some u"
    and "sessions (wld st) i = Some s" and "search_query s = Some q"
    and "status_update_ok ans" and "session_select_ok ans" and "cache_insert_ok ans"
  shows "wld (completeSession t0 ans st) =
           (update_session i (\<lambda>s. s\<lparr>status := ''completed'', completed_at := Some t0\<rparr>) (wld st))
             \<lparr>search_cache := search_cache (wld st) @
                [\<lparr>c_user_id = u, c_search_query = q, c_business_type = business_type s,
                  c_location = location s, c_session_id = i, result_count = total_records s,
                  cached_at = cache_insert_at ans,
                  expires_at = cache_insert_at ans + seven_days\<rparr>]\<rparr>"
  using assms
  by (simp add: completeSession_def Let_def await_wld update_session_def)

lemma maybeSingle_simps:
  "maybeSingle [] = Inr None"
  "maybeSingle [r] = Inr (Some r)"
  "xs \<noteq> [] \<Longrightarrow> maybeSingle (xs @ [r]) = Inl ''PGRST116''"
proof -
  show "maybeSingle [] = Inr None" "maybeSingle [r] = Inr (Some r)"
    by (simp_all add: maybeSingle_def)
  assume "xs \<noteq> []"
  then obtain a rest where "xs = a # rest" by (cases xs) auto
  then show "maybeSingle (xs @ [r]) = Inl ''PGRST116''"
    by (cases rest) (simp_all add: maybeSingle_def)
qed

lemma cache_match_completed:
  assumes "sessions w i = Some s"
  shows "cache_match
           ((update_session i (\<lambda>s. s\<lparr>status := ''completed'', completed_at := Some t0\<rparr>) w)
              \<lparr>search_cache := c\<rparr>) u q t r =
         cache_match w u q t r"
  using assms
  by (cases "c_session_id r = i") (simp_all add: cache_match_def cache_visible_def update_session_def)

lemma checkCache_eq:
  "checkCache w u None t bt loc =
     (case maybeSingle (filter (cache_match w u (searchQuery bt loc) t) (search_cache w)) of
        Inl e \<Rightarrow> None | Inr None \<Rightarrow> None | Inr (Some d) \<Rightarrow> Some (c_session_id d))"
  by (simp add: checkCache_def Let_def)

lemma cache_after_completion:
  assumes "sessionId (scr st) = Some i" and "userId (scr st) = Some u"
    and "sessions (wld st) i = Some s" and "search_query s = Some q"
    and "status_update_ok ans" and "session_select_ok ans" and "cache_insert_ok ans"
    and "user_id s = Some u"
  shows "filter (cache_match (wld (completeSession t0 ans st)) u q t)
           (search_cache (wld (completeSession t0 ans st))) =
         filter (cache_match (wld st) u q t) (search_cache (wld st)) @
           (if t < cache_insert_at ans + seven_days
            then [\<lparr>c_user_id = u, c_search_query = q, c_business_type = business_type s,
                   c_location = location s, c_session_id = i, result_count = total_records s,
                   cached_at = cache_insert_at ans,
                   expires_at = cache_insert_at ans + seven_days\<rparr>]
            else [])"
proof -
  note w = completeSession_wld [OF assms(1-7)]
  have m: "cache_match (wld (completeSession t0 ans st)) u q t = cache_match (wld st) u q t"
    by (rule ext) (simp only: w cache_match_completed [OF assms(3)])
  have n: "cache_match (wld st) u q t
             \<lparr>c_user_id = u, c_search_query = q, c_business_type = business_type s,
              c_location = location s, c_session_id = i, result_count = total_records s,
              cached_at = cache_insert_at ans,
              expires_at = cache_insert_at ans + seven_days\<rparr> \<longleftrightarrow>
           t < cache_insert_at ans + seven_days"
    using assms(3,8) by (simp add: cache_match_def cache_visible_def)
  have c: "search_cache (wld (completeSession t0 ans st)) = search_cache (wld st) @
            [\<lparr>c_user_id = u, c_search_query = q, c_business_type = business_type s,
              c_location = location s, c_session_id = i, result_count = total_records s,
              cached_at = cache_insert_at ans,
              expires_at = cache_insert_at ans + seven_days\<rparr>]"
    by (simp add: w)
  show ?thesis unfolding m c using n by simp
qed

lemma single_entry_round_trip:
  assumes "sessionId (scr st) = Some i" and "userId (scr st) = Some u"
    and "sessions (wld st) i = Some s" and "search_query s = Some (searchQuery bt loc)"
    and "status_update_ok ans" and "session_select_ok ans" and "cache_insert_ok ans"
    and "user_id s = Some u"
    and "filter (cache_match (wld st) u (searchQuery bt loc) t) (search_cache (wld st)) = []"
  shows "checkCache (wld (completeSession t0 ans st)) u None t bt loc =
           (if t < cache_insert_at ans + seven_days then Some i else None)"
  unfolding checkCache_eq cache_after_completion [OF assms(1-8)]
  using assms(9) by (simp add: maybeSingle_simps)

text \<open>
  C5. One user completes two sessions for the query \<open>cafes\<close> in \<open>Pune, India\<close>, session
  7 at time 5000 and session 8 at time 6000; the second search was not served from the cache
  because the store failed to answer the lookup, which \<open>checkCache\<close> reads as a miss. After
  the first completion the lookup returns session 7. After the second, at time 7000, both
  entries are unexpired and belong to the user, the select matches two rows, the single-row
  read reports an error, and the lookup returns none.
\<close>

theorem cache_lookup_misses_two_entries:
  "checkCache (cached_world ''cafes'' ''Pune, India'') 1 None 5500 ''cafes'' ''Pune, India'' = Some 7 \<and>
   checkCache (cached_world ''cafes'' ''Pune, India'') 1 (Some ''timeout'') 5500
     ''cafes'' ''Pune, India'' = None \<and>
   map c_session_id
     (filter (cache_match twice_cached 1 (searchQuery ''cafes'' ''Pune, India'') 7000)
        (search_cache twice_cached)) = [7, 8] \<and>
   map expires_at (search_cache twice_cached) = [5000 + seven_days, 6000 + seven_days] \<and>
   checkCache twice_cached 1 None 7000 ''cafes'' ''Pune, India'' = None"
  by code_simp

text \<open>
  C10. The normalized query is not injective: the business type \<open>a|b\<close> with location \<open>c\<close>
  and the business type \<open>a\<close> with location \<open>b|c\<close> are different queries with the same
  normalized string. \<open>startSession\<close> stores that string, the cache entry copies it, and
  \<open>checkCache\<close> depends on the business type and the location through it alone, so a
  lookup for the second query returns the session cached for the first.
\<close>

theorem normalization_not_injective:
  "(''a|b'', ''c'') \<noteq> (''a'', ''b|c'') \<and>
   searchQuery ''a|b'' ''c'' = searchQuery ''a'' ''b|c'' \<and>
   searchQuery bt loc = toLowerCase (trim bt) @ ''|'' @ toLowerCase (trim loc) \<and>
   (searchQuery bt loc = searchQuery bt' loc' \<longrightarrow>
      checkCache w u e t bt loc = checkCache w u e t bt' loc') \<and>
   map c_business_type (search_cache (cached_world ''a|b'' ''c'')) = [''a|b''] \<and>
   map c_session_id (search_cache (cached_world ''a|b'' ''c'')) = [7] \<and>
   checkCache (cached_world ''a|b'' ''c'') 1 None 6000 ''a'' ''b|c'' = Some 7"
proof -
  have 1: "(''a|b'', ''c'') \<noteq> (''a'', ''b|c'')" by simp
  have 2: "searchQuery ''a|b'' ''c'' = searchQuery ''a'' ''b|c''" by code_simp
  have 3: "searchQuery bt loc = searchQuery bt' loc' \<longrightarrow>
      checkCache w u e t bt loc = checkCache w u e t bt' loc'"
    by (simp add: checkCache_def Let_def)
  have 4: "map c_business_type (search_cache (cached_world ''a|b'' ''c'')) = [''a|b'']" by code_simp
  have 5: "map c_session_id (search_cache (cached_world ''a|b'' ''c'')) = [7]" by code_simp
  have 6: "checkCache (cached_world ''a|b'' ''c'') 1 None 6000 ''a'' ''b|c'' = Some 7" by code_simp
  have 7: "searchQuery bt loc = toLowerCase (trim bt) @ ''|'' @ toLowerCase (trim loc)"
    by (simp add: searchQuery_def lower_trim_commute)
  from 1 2 3 4 5 6 7 show ?thesis by blast
qed

theorem normalization_not_injective_witness:
  "searchQuery ''a|b'' ''c'' = searchQuery ''a'' ''b|c'' \<and>
   checkCache (cached_world ''a|b'' ''c'') 1 None 6000 ''a|b'' ''c'' =
   checkCache (cached_world ''a|b'' ''c'') 1 None 6000 ''a'' ''b|c''"
  using normalization_not_injective
    [of "''a|b''" "''c''" "''a''" "''b|c''" "cached_world ''a|b'' ''c''" 1 None 6000]
  by blast

text \<open>
  C1. The counter is written as the loop index plus one after each accepted insert. With
  two listings of which the store rejects the first, the run completes naturally with
  \<open>total_records = 2\<close> while one row of the session is in \<open>listings\<close>, and the cache
  entry records \<open>result_count = 2\<close>.
\<close>

theorem total_records_counts_index:
  "map_option
     (\<lambda>r. (fst r,
            map_option total_records (sessions (wld (snd r)) 7),
            length (session_listings 7 (wld (snd r))),
            map_option status (sessions (wld (snd r)) 7),
            map result_count (search_cache (wld (snd r)))))
     (scrapeListings env_first_rejected (Listings (Some [acme1, bistro]))
        (started ''cafes'' ''Pune, India'')) =
   Some (Inr (), Some 2, 1, Some ''completed'', [2])"
  by code_simp

text \<open>
  C6. \<open>stop\<close> leaves every row of the store as it was. A run over two listings in which \<open>stop\<close> is called during the delay before the first
  insert: the insert in flight is written, the loop ends at its next check, no cache entry
  is written and the processing function is not called. The session row is still
  \<open>running\<close> with \<open>completed_at\<close> null: \<open>stop\<close> builds its update and never sends it.
\<close>

theorem stop_leaves_session_running:
  "snd (stop now sc w) = w \<and>
   map_option
     (\<lambda>r. (fst r,
            map_option status (sessions (wld (snd r)) 7),
            map_option completed_at (sessions (wld (snd r)) 7),
            length (listings (wld (snd r))),
            length (search_cache (wld (snd r))),
            engine_calls (wld (snd r)),
            aborted (scr (snd r)),
            isRunning (scr (snd r))))
     (scrapeListings env_ok (Listings (Some [acme1, bistro]))
        ((started ''cafes'' ''Pune, India'')\<lparr>sched := [[], [], [CallStop 4000]]\<rparr>)) =
   Some (Inr (), Some ''running'', Some None, 1, 0, [], True, False)"
proof -
  have "snd (stop now sc w) = w"
    by (simp add: stop_def not_awaited_def split: option.split)
  moreover have "map_option
     (\<lambda>r. (fst r,
            map_option status (sessions (wld (snd r)) 7),
            map_option completed_at (sessions (wld (snd r)) 7),
            length (listings (wld (snd r))),
            length (search_cache (wld (snd r))),
            engine_calls (wld (snd r)),
            aborted (scr (snd r)),
            isRunning (scr (snd r))))
     (scrapeListings env_ok (Listings (Some [acme1, bistro]))
        ((started ''cafes'' ''Pune, India'')\<lparr>sched := [[], [], [CallStop 4000]]\<rparr>)) =
   Some (Inr (), Some ''running'', Some None, 1, 0, [], True, False)"
    by code_simp
  ultimately show ?thesis by blast
qed

end
